theory Spec2Isabelle
  imports Complex_Main "HOL-Library.AList"
begin

section \<open>JSON values and JavaScript objects\<close>

text \<open>
  The converter builds plain JavaScript objects that are JSON Schema (draft-07) nodes.
  A JSON value is a string, a number, a boolean, an array or an object; an object is
  the list of its own properties, in the order in which JavaScript enumerates them
  (\<^verbatim>\<open>Object.keys\<close>, \<^verbatim>\<open>JSON.stringify\<close>). Numbers are only ever
  copied from the input (\<^verbatim>\<open>numberMin\<close>, \<^verbatim>\<open>numberMax\<close>), never computed with.
\<close>

datatype json =
    JString string
  | JNumber real
  | JBool bool
  | JArray "json list"
  | JObject "(string \<times> json) list"

type_synonym JSONSchema7 = "(string \<times> json) list"

text \<open>
  Two rules of the language decide what \<^verbatim>\<open>obj[k] = v\<close> does to the own properties
  of an ordinary object, and both are part of the model:
  \<^item> a key that is an array index (the canonical decimal form of an integer from 0 to
    \<open>2\<^sup>3\<^sup>2 - 2\<close>) is enumerated before every other key, array indices in ascending
    numeric order; the other keys follow in the order of their creation;
  \<^item> the key \<^verbatim>\<open>__proto__\<close> is an accessor inherited from \<^verbatim>\<open>Object.prototype\<close>:
    assigning an object to it replaces the prototype and creates no own property.
  Assigning to a key that exists replaces its value and keeps its position.
\<close>

definition isDigit :: "char \<Rightarrow> bool" where
  "isDigit c = (c \<in> set ''0123456789'')"

definition digitsValue :: "string \<Rightarrow> nat" where
  "digitsValue s = foldl (\<lambda>n c. 10 * n + (of_char c - 48)) 0 s"

definition arrayIndex :: "string \<Rightarrow> nat option" where
  "arrayIndex k =
     (if k \<noteq> [] \<and> list_all isDigit k \<and> (k = ''0'' \<or> hd k \<noteq> CHR ''0'')
         \<and> digitsValue k < 4294967295
      then Some (digitsValue k) else None)"

fun insertIndexed :: "nat \<Rightarrow> string \<Rightarrow> 'v \<Rightarrow> (string \<times> 'v) list \<Rightarrow> (string \<times> 'v) list" where
  "insertIndexed i k v [] = [(k, v)]"
| "insertIndexed i k v (p # ps) =
     (case arrayIndex (fst p) of
        Some j \<Rightarrow> if j < i then p # insertIndexed i k v ps else (k, v) # p # ps
      | None \<Rightarrow> (k, v) # p # ps)"

text \<open>
  \<open>obj_define\<close> creates or overwrites an own data property (what an object literal and
  object spread do for each key); \<open>obj_set\<close> is the assignment \<^verbatim>\<open>obj[k] = v\<close> of
  an object \<open>v\<close>.
\<close>

definition obj_define :: "(string \<times> 'v) list \<Rightarrow> string \<Rightarrow> 'v \<Rightarrow> (string \<times> 'v) list" where
  "obj_define obj k v =
     (if k \<in> fst ` set obj then AList.update k v obj
      else case arrayIndex k of
        None \<Rightarrow> obj @ [(k, v)]
      | Some i \<Rightarrow> insertIndexed i k v obj)"

definition obj_set :: "(string \<times> 'v) list \<Rightarrow> string \<Rightarrow> 'v \<Rightarrow> (string \<times> 'v) list" where
  "obj_set obj k v = (if k = ''__proto__'' then obj else obj_define obj k v)"

text \<open>\<^verbatim>\<open>{ ...a, ...b }\<close>: the own properties of \<open>a\<close>, then those of \<open>b\<close>, defined on a fresh object.\<close>

definition obj_spread :: "(string \<times> 'v) list \<Rightarrow> (string \<times> 'v) list \<Rightarrow> (string \<times> 'v) list" where
  "obj_spread a b =
     foldl (\<lambda>obj (k, v). obj_define obj k v) (foldl (\<lambda>obj (k, v). obj_define obj k v) [] a) b"

section \<open>The microCMS schema types (\<^verbatim>\<open>types/microcms-schema.ts\<close>)\<close>

text \<open>
  An optional property (\<^verbatim>\<open>required?: boolean\<close>) is an \<open>option\<close>. The discriminated union
  \<^verbatim>\<open>MicroCMSField\<close> is the record of the shared base properties together with a
  \<open>kind\<close> that carries the kind-specific ones. \<open>Unknown\<close> stands for a kind tag outside
  the declared union, which only an untyped caller can supply; it is what the
  \<^verbatim>\<open>default\<close> arm of the converter's \<^verbatim>\<open>switch\<close> receives.
  The properties \<^verbatim>\<open>fieldId\<close>, \<^verbatim>\<open>name\<close> and \<^verbatim>\<open>fields\<close> of a custom field
  definition are \<open>defFieldId\<close>, \<open>defName\<close> and \<open>defFields\<close> here.
\<close>

record MicroCMSSelectItem =
  id :: string
  "value" :: string

datatype MicroCMSFieldKind =
    Text "bool option"
  | TextArea
  | RichEditorV2
  | Select bool "MicroCMSSelectItem list" "MicroCMSSelectItem list option"
  | Number "real option" "real option"
  | Date "bool option"
  | Boolean "bool option"
  | Media
  | Relation string "bool option"
  | RelationList string
  | Repeater "string list"
  | Custom string
  | Unknown string

record MicroCMSField =
  fieldId :: string
  name :: string
  required :: "bool option"
  description :: "string option"
  kind :: MicroCMSFieldKind

record MicroCMSCustomFieldDefinition =
  createdAt :: string
  defFieldId :: string
  defName :: string
  defFields :: "MicroCMSField list"

record MicroCMSApiSchema =
  apiFields :: "MicroCMSField list"
  customFields :: "MicroCMSCustomFieldDefinition list option"

record MicroCMSApiEntry =
  endpoint :: string
  api :: MicroCMSApiSchema

record MicroCMSSchemaBundle =
  version :: string
  pulledAt :: string
  serviceDomain :: "string option"
  apis :: "MicroCMSApiEntry list"

record ToJsonSchemaOptions =
  title :: "string option"
  includeExtensions :: "bool option"

text \<open>
  The pool \<^verbatim>\<open>Map<string, MicroCMSCustomFieldDefinition>\<close>: \<^verbatim>\<open>get\<close> is \<open>map_of\<close>,
  \<^verbatim>\<open>set\<close> is \<open>AList.update\<close> (a \<^verbatim>\<open>Map\<close> has no special keys and keeps
  the order of insertion). The resolution path \<^verbatim>\<open>Set<string>\<close> is a \<open>string set\<close>.
\<close>

type_synonym CustomFieldMap = "(string \<times> MicroCMSCustomFieldDefinition) list"

fun kindTag :: "MicroCMSFieldKind \<Rightarrow> string" where
  "kindTag (Text _) = ''text''"
| "kindTag TextArea = ''textArea''"
| "kindTag RichEditorV2 = ''richEditorV2''"
| "kindTag (Select _ _ _) = ''select''"
| "kindTag (Number _ _) = ''number''"
| "kindTag (Date _) = ''date''"
| "kindTag (Boolean _) = ''boolean''"
| "kindTag Media = ''media''"
| "kindTag (Relation _ _) = ''relation''"
| "kindTag (RelationList _) = ''relationList''"
| "kindTag (Repeater _) = ''repeater''"
| "kindTag (Custom _) = ''custom''"
| "kindTag (Unknown t) = t"

section \<open>The converter (\<^verbatim>\<open>converters/to-json-schema.ts\<close>)\<close>

text \<open>\<^verbatim>\<open>options?.includeExtensions\<close> and \<^verbatim>\<open>options?.title\<close> as conditions: the empty string is falsy.\<close>

definition wantsExtensions :: "ToJsonSchemaOptions option \<Rightarrow> bool" where
  "wantsExtensions options =
     (case options of None \<Rightarrow> False | Some opts \<Rightarrow> includeExtensions opts = Some True)"

definition truthyTitle :: "ToJsonSchemaOptions option \<Rightarrow> string option" where
  "truthyTitle options =
     (case options of
        None \<Rightarrow> None
      | Some opts \<Rightarrow> (case title opts of None \<Rightarrow> None | Some t \<Rightarrow> if t = [] then None else Some t))"

definition relationSchema :: JSONSchema7 where
  "relationSchema =
     [(''type'', JString ''object''),
      (''properties'', JObject [(''id'', JObject [(''type'', JString ''string'')])]),
      (''required'', JArray [JString ''id''])]"

definition buildCustomFieldMap :: "MicroCMSCustomFieldDefinition list option \<Rightarrow> CustomFieldMap" where
  "buildCustomFieldMap cfs =
     (case cfs of
        None \<Rightarrow> []
      | Some defs \<Rightarrow> foldl (\<lambda>m def. AList.update (createdAt def) def m) [] defs)"

text \<open>
  The termination measure of the converter: the number of pool identifiers that are not
  on the resolution path, then a weight that orders the functions calling one another
  on the same path.
\<close>

definition unvisited :: "CustomFieldMap \<Rightarrow> string set \<Rightarrow> nat" where
  "unvisited customFieldMap visited = card (fst ` set customFieldMap - visited)"

definition fieldWeight :: "MicroCMSField \<Rightarrow> nat" where
  "fieldWeight field = (case kind field of Repeater l \<Rightarrow> length l | _ \<Rightarrow> 0)"

text \<open>
  The five functions of the source call one another; the two \<^verbatim>\<open>for\<close> loops
  (over \<^verbatim>\<open>createdAtList\<close> in \<^verbatim>\<open>convertRepeater\<close>, over \<^verbatim>\<open>def.fields\<close> in
  \<^verbatim>\<open>resolveCustomField\<close>) are the functions \<open>_loop\<close>, whose last arguments are the
  accumulators \<^verbatim>\<open>schemas\<close>, and \<^verbatim>\<open>properties\<close> and \<^verbatim>\<open>required\<close>.
  \<^verbatim>\<open>resolveCustomField\<close> returns \<^verbatim>\<open>null\<close> as \<open>None\<close>.
\<close>

function convertField :: "MicroCMSField \<Rightarrow> CustomFieldMap \<Rightarrow> string set \<Rightarrow> ToJsonSchemaOptions option \<Rightarrow> JSONSchema7"
  and convertFieldByKind :: "MicroCMSField \<Rightarrow> CustomFieldMap \<Rightarrow> string set \<Rightarrow> ToJsonSchemaOptions option \<Rightarrow> JSONSchema7"
  and convertRepeater :: "string list \<Rightarrow> CustomFieldMap \<Rightarrow> string set \<Rightarrow> ToJsonSchemaOptions option \<Rightarrow> JSONSchema7"
  and convertRepeater_loop :: "string list \<Rightarrow> CustomFieldMap \<Rightarrow> string set \<Rightarrow> ToJsonSchemaOptions option
        \<Rightarrow> JSONSchema7 list \<Rightarrow> JSONSchema7 list"
  and convertCustom :: "string \<Rightarrow> CustomFieldMap \<Rightarrow> string set \<Rightarrow> ToJsonSchemaOptions option \<Rightarrow> JSONSchema7"
  and resolveCustomField :: "string \<Rightarrow> CustomFieldMap \<Rightarrow> string set \<Rightarrow> ToJsonSchemaOptions option \<Rightarrow> JSONSchema7 option"
  and resolveCustomField_loop :: "MicroCMSField list \<Rightarrow> CustomFieldMap \<Rightarrow> string set \<Rightarrow> ToJsonSchemaOptions option
        \<Rightarrow> (string \<times> json) list \<Rightarrow> string list \<Rightarrow> (string \<times> json) list \<times> string list"
where
  "convertField field customFieldMap visited options =
     (let base = convertFieldByKind field customFieldMap visited options in
      if wantsExtensions options then
        obj_spread base
          [(''x-microcms-field-id'', JString (fieldId field)),
           (''x-microcms-field-name'', JString (name field)),
           (''x-microcms-kind'', JString (kindTag (kind field)))]
      else base)"
| "convertFieldByKind field customFieldMap visited options =
     (case kind field of
        Text _ \<Rightarrow> [(''type'', JString ''string'')]
      | TextArea \<Rightarrow> [(''type'', JString ''string'')]
      | RichEditorV2 \<Rightarrow> [(''type'', JString ''string''), (''contentMediaType'', JString ''text/html'')]
      | Select multipleSelect selectItems _ \<Rightarrow>
          (let values = map (\<lambda>item. JString (value item)) selectItems in
           if multipleSelect then
             [(''type'', JString ''array''),
              (''items'', JObject [(''type'', JString ''string''), (''enum'', JArray values)])]
           else [(''type'', JString ''string''), (''enum'', JArray values)])
      | Number numberMin numberMax \<Rightarrow>
          (let schema = [(''type'', JString ''number'')];
               schema = (case numberMin of None \<Rightarrow> schema
                         | Some lo \<Rightarrow> obj_set schema ''minimum'' (JNumber lo));
               schema = (case numberMax of None \<Rightarrow> schema
                         | Some hi \<Rightarrow> obj_set schema ''maximum'' (JNumber hi))
           in schema)
      | Date _ \<Rightarrow> [(''type'', JString ''string''), (''format'', JString ''date-time'')]
      | Boolean booleanInitialValue \<Rightarrow>
          (let schema = [(''type'', JString ''boolean'')] in
           case booleanInitialValue of None \<Rightarrow> schema
           | Some b \<Rightarrow> obj_set schema ''default'' (JBool b))
      | Media \<Rightarrow>
          [(''type'', JString ''object''),
           (''properties'', JObject
              [(''url'', JObject [(''type'', JString ''string''), (''format'', JString ''uri'')]),
               (''height'', JObject [(''type'', JString ''number'')]),
               (''width'', JObject [(''type'', JString ''number'')])]),
           (''required'', JArray [JString ''url''])]
      | Relation _ _ \<Rightarrow> relationSchema
      | RelationList _ \<Rightarrow> [(''type'', JString ''array''), (''items'', JObject relationSchema)]
      | Repeater customFieldCreatedAtList \<Rightarrow>
          convertRepeater customFieldCreatedAtList customFieldMap visited options
      | Custom customFieldCreatedAt \<Rightarrow>
          convertCustom customFieldCreatedAt customFieldMap visited options
      | Unknown _ \<Rightarrow> [])"
| "convertRepeater createdAtList customFieldMap visited options =
     (let schemas = convertRepeater_loop createdAtList customFieldMap visited options [] in
      if length schemas = 0 then [(''type'', JString ''array'')]
      else if length schemas = 1 then
        [(''type'', JString ''array''), (''items'', JObject (schemas ! 0))]
      else
        [(''type'', JString ''array''),
         (''items'', JObject [(''oneOf'', JArray (map JObject schemas))])])"
| "convertRepeater_loop [] customFieldMap visited options schemas = schemas"
| "convertRepeater_loop (createdAt' # rest) customFieldMap visited options schemas =
     (case resolveCustomField createdAt' customFieldMap visited options of
        None \<Rightarrow> convertRepeater_loop rest customFieldMap visited options schemas
      | Some resolved \<Rightarrow>
          convertRepeater_loop rest customFieldMap visited options (schemas @ [resolved]))"
| "convertCustom createdAt' customFieldMap visited options =
     (case resolveCustomField createdAt' customFieldMap visited options of
        None \<Rightarrow> [(''type'', JString ''object'')]
      | Some resolved \<Rightarrow> resolved)"
| "resolveCustomField createdAt' customFieldMap visited options =
     (if createdAt' \<in> visited then Some [(''type'', JString ''object'')]
      else case map_of customFieldMap createdAt' of
        None \<Rightarrow> None
      | Some def \<Rightarrow>
          (let nextVisited = insert createdAt' visited;
               (properties, required') =
                 resolveCustomField_loop (defFields def) customFieldMap nextVisited options [] [];
               schema = [(''type'', JString ''object''), (''properties'', JObject properties)]
           in Some (if length required' > 0
                    then obj_set schema ''required'' (JArray (map JString required'))
                    else schema)))"
| "resolveCustomField_loop [] customFieldMap nextVisited options properties required' =
     (properties, required')"
| "resolveCustomField_loop (field # rest) customFieldMap nextVisited options properties required' =
     resolveCustomField_loop rest customFieldMap nextVisited options
       (obj_set properties (fieldId field)
          (JObject (convertField field customFieldMap nextVisited options)))
       (if required field = Some True then required' @ [fieldId field] else required')"
  by pat_completeness auto

termination convertField
proof (relation "inv_image (less_than <*lex*> less_than)
     (\<lambda>x. case x of
        Inl (Inl (f, m, v, opts)) \<Rightarrow> (unvisited m v, 4 + fieldWeight f)
      | Inl (Inr (Inl (f, m, v, opts))) \<Rightarrow> (unvisited m v, 3 + fieldWeight f)
      | Inl (Inr (Inr (l, m, v, opts))) \<Rightarrow> (unvisited m v, 2 + length l)
      | Inr (Inl (Inl (l, m, v, opts, acc))) \<Rightarrow> (unvisited m v, 1 + length l)
      | Inr (Inl (Inr (c, m, v, opts))) \<Rightarrow> (unvisited m v, 1)
      | Inr (Inr (Inl (c, m, v, opts))) \<Rightarrow> (unvisited m v, 0)
      | Inr (Inr (Inr (fs, m, v, opts, props, req))) \<Rightarrow>
          (unvisited m v, sum_list (map (\<lambda>f. 5 + fieldWeight f) fs)))",
    goal_cases)
  case (10 c m vis opts d nv)
  have "c \<in> fst ` set m"
    using 10(2) by (metis map_of_SomeD fst_conv image_eqI)
  then have mem: "c \<in> fst ` set m - vis"
    using 10(1) by simp
  have fin: "finite (fst ` set m - vis)"
    by simp
  have eq: "fst ` set m - insert c vis = (fst ` set m - vis) - {c}"
    by auto
  have "unvisited m (insert c vis) < unvisited m vis"
    unfolding unvisited_def eq using card_Diff1_less [OF fin mem] .
  then show ?case
    using 10(3) by simp
qed (auto simp: fieldWeight_def)

text \<open>The entry points. The loop of \<^verbatim>\<open>toJsonSchema\<close> passes a new, empty path for every field.\<close>

fun toJsonSchema_loop :: "MicroCMSField list \<Rightarrow> CustomFieldMap \<Rightarrow> ToJsonSchemaOptions option
      \<Rightarrow> (string \<times> json) list \<Rightarrow> string list \<Rightarrow> (string \<times> json) list \<times> string list" where
  "toJsonSchema_loop [] customFieldMap options properties required' = (properties, required')"
| "toJsonSchema_loop (field # rest) customFieldMap options properties required' =
     toJsonSchema_loop rest customFieldMap options
       (obj_set properties (fieldId field) (JObject (convertField field customFieldMap {} options)))
       (if required field = Some True then required' @ [fieldId field] else required')"

definition toJsonSchema :: "MicroCMSApiSchema \<Rightarrow> ToJsonSchemaOptions option \<Rightarrow> JSONSchema7" where
  "toJsonSchema schema options =
     (let customFieldMap = buildCustomFieldMap (customFields schema);
          (properties, required') = toJsonSchema_loop (apiFields schema) customFieldMap options [] [];
          result = [(''$schema'', JString ''http://json-schema.org/draft-07/schema#''),
                    (''type'', JString ''object''),
                    (''properties'', JObject properties)];
          result = (case truthyTitle options of None \<Rightarrow> result
                    | Some t \<Rightarrow> obj_set result ''title'' (JString t));
          result = (if length required' > 0
                    then obj_set result ''required'' (JArray (map JString required'))
                    else result)
      in result)"

fun bundleToJsonSchema_loop :: "MicroCMSApiEntry list \<Rightarrow> (string \<times> JSONSchema7) list
      \<Rightarrow> (string \<times> JSONSchema7) list" where
  "bundleToJsonSchema_loop [] result = result"
| "bundleToJsonSchema_loop (entry # rest) result =
     bundleToJsonSchema_loop rest
       (obj_set result (endpoint entry)
          (toJsonSchema (api entry) (Some \<lparr>title = Some (endpoint entry), includeExtensions = None\<rparr>)))"

definition bundleToJsonSchema :: "MicroCMSSchemaBundle \<Rightarrow> (string \<times> JSONSchema7) list" where
  "bundleToJsonSchema bundle = bundleToJsonSchema_loop (apis bundle) []"

section \<open>Depth-limited conversion\<close>

text \<open>
  The same converter with a budget \<open>n\<close> of nested resolutions: entering a reusable
  definition (the point where \<^verbatim>\<open>resolveCustomField\<close> extends the path and converts
  the definition's fields) costs one, and the result is \<open>None\<close> when a definition would
  have to be entered with nothing left. The kinds that resolve nothing are converted as
  before. It measures how deep resolutions nest.
\<close>

function convertField_fuel :: "nat \<Rightarrow> MicroCMSField \<Rightarrow> CustomFieldMap \<Rightarrow> string set \<Rightarrow> ToJsonSchemaOptions option \<Rightarrow> JSONSchema7 option"
  and convertFieldByKind_fuel :: "nat \<Rightarrow> MicroCMSField \<Rightarrow> CustomFieldMap \<Rightarrow> string set \<Rightarrow> ToJsonSchemaOptions option \<Rightarrow> JSONSchema7 option"
  and convertRepeater_fuel :: "nat \<Rightarrow> string list \<Rightarrow> CustomFieldMap \<Rightarrow> string set \<Rightarrow> ToJsonSchemaOptions option \<Rightarrow> JSONSchema7 option"
  and convertRepeater_loop_fuel :: "nat \<Rightarrow> string list \<Rightarrow> CustomFieldMap \<Rightarrow> string set \<Rightarrow> ToJsonSchemaOptions option
        \<Rightarrow> JSONSchema7 list \<Rightarrow> JSONSchema7 list option"
  and convertCustom_fuel :: "nat \<Rightarrow> string \<Rightarrow> CustomFieldMap \<Rightarrow> string set \<Rightarrow> ToJsonSchemaOptions option \<Rightarrow> JSONSchema7 option"
  and resolveCustomField_fuel :: "nat \<Rightarrow> string \<Rightarrow> CustomFieldMap \<Rightarrow> string set \<Rightarrow> ToJsonSchemaOptions option
        \<Rightarrow> JSONSchema7 option option"
  and resolveCustomField_loop_fuel :: "nat \<Rightarrow> MicroCMSField list \<Rightarrow> CustomFieldMap \<Rightarrow> string set \<Rightarrow> ToJsonSchemaOptions option
        \<Rightarrow> (string \<times> json) list \<Rightarrow> string list \<Rightarrow> ((string \<times> json) list \<times> string list) option"
where
  "convertField_fuel n field customFieldMap visited options =
     (case convertFieldByKind_fuel n field customFieldMap visited options of
        None \<Rightarrow> None
      | Some base \<Rightarrow>
          Some (if wantsExtensions options then
                  obj_spread base
                    [(''x-microcms-field-id'', JString (fieldId field)),
                     (''x-microcms-field-name'', JString (name field)),
                     (''x-microcms-kind'', JString (kindTag (kind field)))]
                else base))"
| "convertFieldByKind_fuel n field customFieldMap visited options =
     (case kind field of
        Repeater customFieldCreatedAtList \<Rightarrow>
          convertRepeater_fuel n customFieldCreatedAtList customFieldMap visited options
      | Custom customFieldCreatedAt \<Rightarrow>
          convertCustom_fuel n customFieldCreatedAt customFieldMap visited options
      | _ \<Rightarrow> Some (convertFieldByKind field customFieldMap visited options))"
| "convertRepeater_fuel n createdAtList customFieldMap visited options =
     (case convertRepeater_loop_fuel n createdAtList customFieldMap visited options [] of
        None \<Rightarrow> None
      | Some schemas \<Rightarrow>
          Some (if length schemas = 0 then [(''type'', JString ''array'')]
                else if length schemas = 1 then
                  [(''type'', JString ''array''), (''items'', JObject (schemas ! 0))]
                else
                  [(''type'', JString ''array''),
                   (''items'', JObject [(''oneOf'', JArray (map JObject schemas))])]))"
| "convertRepeater_loop_fuel n [] customFieldMap visited options schemas = Some schemas"
| "convertRepeater_loop_fuel n (createdAt' # rest) customFieldMap visited options schemas =
     (case resolveCustomField_fuel n createdAt' customFieldMap visited options of
        None \<Rightarrow> None
      | Some None \<Rightarrow> convertRepeater_loop_fuel n rest customFieldMap visited options schemas
      | Some (Some resolved) \<Rightarrow>
          convertRepeater_loop_fuel n rest customFieldMap visited options (schemas @ [resolved]))"
| "convertCustom_fuel n createdAt' customFieldMap visited options =
     (case resolveCustomField_fuel n createdAt' customFieldMap visited options of
        None \<Rightarrow> None
      | Some None \<Rightarrow> Some [(''type'', JString ''object'')]
      | Some (Some resolved) \<Rightarrow> Some resolved)"
| "resolveCustomField_fuel n createdAt' customFieldMap visited options =
     (if createdAt' \<in> visited then Some (Some [(''type'', JString ''object'')])
      else case map_of customFieldMap createdAt' of
        None \<Rightarrow> Some None
      | Some def \<Rightarrow>
          (case n of
             0 \<Rightarrow> None
           | Suc n' \<Rightarrow>
               (case resolveCustomField_loop_fuel n' (defFields def) customFieldMap
                       (insert createdAt' visited) options [] [] of
                  None \<Rightarrow> None
                | Some (properties, required') \<Rightarrow>
                    (let schema = [(''type'', JString ''object''), (''properties'', JObject properties)]
                     in Some (Some (if length required' > 0
                                    then obj_set schema ''required'' (JArray (map JString required'))
                                    else schema))))))"
| "resolveCustomField_loop_fuel n [] customFieldMap nextVisited options properties required' =
     Some (properties, required')"
| "resolveCustomField_loop_fuel n (field # rest) customFieldMap nextVisited options properties required' =
     (case convertField_fuel n field customFieldMap nextVisited options of
        None \<Rightarrow> None
      | Some converted \<Rightarrow>
          resolveCustomField_loop_fuel n rest customFieldMap nextVisited options
            (obj_set properties (fieldId field) (JObject converted))
            (if required field = Some True then required' @ [fieldId field] else required'))"
  by pat_completeness auto

termination convertField_fuel
  by (relation "inv_image (less_than <*lex*> less_than)
     (\<lambda>x. case x of
        Inl (Inl (n, f, m, v, opts)) \<Rightarrow> (n, 4 + fieldWeight f)
      | Inl (Inr (Inl (n, f, m, v, opts))) \<Rightarrow> (n, 3 + fieldWeight f)
      | Inl (Inr (Inr (n, l, m, v, opts))) \<Rightarrow> (n, 2 + length l)
      | Inr (Inl (Inl (n, l, m, v, opts, acc))) \<Rightarrow> (n, 1 + length l)
      | Inr (Inl (Inr (n, c, m, v, opts))) \<Rightarrow> (n, 1)
      | Inr (Inr (Inl (n, c, m, v, opts))) \<Rightarrow> (n, 0)
      | Inr (Inr (Inr (n, fs, m, v, opts, props, req))) \<Rightarrow>
          (n, sum_list (map (\<lambda>f. 5 + fieldWeight f) fs)))")
    (auto simp: fieldWeight_def)

section \<open>Notions used to state the properties\<close>

text \<open>The identifiers of the fields that set the required flag, in field order.\<close>

definition requiredIds :: "MicroCMSField list \<Rightarrow> string list" where
  "requiredIds fs = map fieldId (filter (\<lambda>f. required f = Some True) fs)"

text \<open>The last element of a list that bears a given identifier: a field, a definition, a bundle entry.\<close>

fun lastWith :: "('a \<Rightarrow> string) \<Rightarrow> 'a list \<Rightarrow> string \<Rightarrow> 'a option" where
  "lastWith key [] k = None"
| "lastWith key (x # xs) k =
     (case lastWith key xs k of
        Some y \<Rightarrow> Some y
      | None \<Rightarrow> if key x = k then Some x else None)"

text \<open>The resolutions of a list of identifiers that succeed, in listing order.\<close>

definition successes :: "string list \<Rightarrow> CustomFieldMap \<Rightarrow> string set \<Rightarrow> ToJsonSchemaOptions option \<Rightarrow> JSONSchema7 list" where
  "successes l m vis opts = List.map_filter (\<lambda>c. resolveCustomField c m vis opts) l"

text \<open>
  The item schemas of an array schema: the alternatives when \<^verbatim>\<open>items\<close> is exactly
  \<^verbatim>\<open>{"oneOf": [...]}\<close>, the \<^verbatim>\<open>items\<close> schema itself when it is any other object, none
  when there is no \<^verbatim>\<open>items\<close>.
\<close>

definition oneOfAlternatives :: "(string \<times> json) list \<Rightarrow> JSONSchema7 list option" where
  "oneOfAlternatives items =
     (case items of
        [(k, JArray alternatives)] \<Rightarrow>
          if k = ''oneOf''
          then Some (concat (map (\<lambda>x. case x of JObject s \<Rightarrow> [s] | _ \<Rightarrow> []) alternatives))
          else None
      | _ \<Rightarrow> None)"

definition itemSchemas :: "JSONSchema7 \<Rightarrow> JSONSchema7 list" where
  "itemSchemas schema =
     (case map_of schema ''items'' of
        Some (JObject items) \<Rightarrow>
          (case oneOfAlternatives items of Some alternatives \<Rightarrow> alternatives | None \<Rightarrow> [items])
      | _ \<Rightarrow> [])"


section \<open>Example inputs\<close>

text \<open>
  Fields, pools and a bundle used to evaluate the converter: two independent block
  definitions, a definition with two fields of the same identifier, a bundle with two
  entries for the endpoint \<^verbatim>\<open>__proto__\<close>, a definition that refers to itself, and two
  definitions that refer to each other.
\<close>

definition textField :: "string \<Rightarrow> bool option \<Rightarrow> MicroCMSField" where
  "textField i r = \<lparr>fieldId = i, name = i, required = r, description = None, kind = Text None\<rparr>"

definition customField :: "string \<Rightarrow> string \<Rightarrow> MicroCMSField" where
  "customField i c = \<lparr>fieldId = i, name = i, required = None, description = None, kind = Custom c\<rparr>"

definition repeaterField :: "string \<Rightarrow> string list \<Rightarrow> MicroCMSField" where
  "repeaterField i cs = \<lparr>fieldId = i, name = i, required = None, description = None, kind = Repeater cs\<rparr>"

definition definition' :: "string \<Rightarrow> MicroCMSField list \<Rightarrow> MicroCMSCustomFieldDefinition" where
  "definition' c fs = \<lparr>createdAt = c, defFieldId = c, defName = c, defFields = fs\<rparr>"

definition blocksPool :: CustomFieldMap where
  "blocksPool =
     [(''cf-1'', definition' ''cf-1'' [textField ''body'' None]),
      (''cf-2'', definition' ''cf-2'' [textField ''caption'' (Some True)])]"


definition protoBundle :: MicroCMSSchemaBundle where
  "protoBundle =
     \<lparr>version = ''1'', pulledAt = ''2025-01-01T00:00:00.000Z'', serviceDomain = None,
      apis = [\<lparr>endpoint = ''__proto__'', api = \<lparr>apiFields = [textField ''a'' None], customFields = None\<rparr>\<rparr>,
              \<lparr>endpoint = ''__proto__'', api = \<lparr>apiFields = [textField ''b'' None], customFields = None\<rparr>\<rparr>]\<rparr>"

definition selfPool :: CustomFieldMap where
  "selfPool = [(''cf-a'', definition' ''cf-a'' [customField ''child'' ''cf-a''])]"

definition mutualPool :: CustomFieldMap where
  "mutualPool =
     [(''cf-x'', definition' ''cf-x'' [customField ''y'' ''cf-y'']),
      (''cf-y'', definition' ''cf-y'' [repeaterField ''xs'' [''cf-x'', ''cf-y'']])]"

text \<open>The equations of the converter are unfolded where a proof asks for them.\<close>

declare convertField.simps [simp del] convertFieldByKind.simps [simp del]
  convertRepeater.simps [simp del] convertCustom.simps [simp del]
  resolveCustomField.simps [simp del]

declare convertField_fuel.simps [simp del] convertFieldByKind_fuel.simps [simp del]
  convertRepeater_fuel.simps [simp del] convertCustom_fuel.simps [simp del]
  resolveCustomField_fuel.simps [simp del]

section \<open>Own properties after an assignment\<close>

lemma insertIndexed_keys_set: "fst ` set (insertIndexed i k v obj) = insert k (fst ` set obj)"
  by (induction obj) (auto split: option.splits)

lemma map_of_insertIndexed:
  "k \<notin> fst ` set obj \<Longrightarrow> map_of (insertIndexed i k v obj) = (map_of obj)(k \<mapsto> v)"
proof (induction obj)
  case Nil
  then show ?case by simp
next
  case (Cons p ps)
  then have "k \<noteq> fst p" and "k \<notin> fst ` set ps" by auto
  with Cons.IH show ?case
    by (cases p) (auto split: option.splits simp: fun_upd_twist)
qed

lemma distinct_insertIndexed:
  "k \<notin> fst ` set obj \<Longrightarrow> distinct (map fst obj) \<Longrightarrow> distinct (map fst (insertIndexed i k v obj))"
proof (induction obj)
  case Nil
  then show ?case by simp
next
  case (Cons p ps)
  have "fst p \<notin> fst ` set (insertIndexed i k v ps)"
    using Cons.prems by (auto simp: insertIndexed_keys_set)
  with Cons show ?case
    by (auto split: option.splits)
qed

lemma map_of_obj_define: "map_of (obj_define obj k v) = (map_of obj)(k \<mapsto> v)"
proof (cases "k \<in> fst ` set obj")
  case True
  then show ?thesis by (simp add: obj_define_def update_conv')
next
  case False
  then have "map_of obj k = None" by (simp add: map_of_eq_None_iff)
  then have "map_of (obj @ [(k, v)]) = (map_of obj)(k \<mapsto> v)"
    by (auto simp: map_add_def fun_eq_iff split: option.splits)
  with False show ?thesis
    by (simp add: obj_define_def map_of_insertIndexed split: option.splits)
qed

lemma keys_obj_define: "fst ` set (obj_define obj k v) = insert k (fst ` set obj)"
  by (auto simp: obj_define_def dom_update insertIndexed_keys_set split: option.splits)

lemma distinct_obj_define:
  "distinct (map fst obj) \<Longrightarrow> distinct (map fst (obj_define obj k v))"
  by (auto simp: obj_define_def distinct_update distinct_insertIndexed split: option.splits)

lemma map_of_obj_set:
  "map_of (obj_set obj k v) = (if k = ''__proto__'' then map_of obj else (map_of obj)(k \<mapsto> v))"
  by (simp add: obj_set_def map_of_obj_define)

lemma distinct_obj_set:
  "distinct (map fst obj) \<Longrightarrow> distinct (map fst (obj_set obj k v))"
  by (simp add: obj_set_def distinct_obj_define)

text \<open>Array-index keys are enumerated first, in numeric order, and \<^verbatim>\<open>__proto__\<close> never becomes a key.\<close>

lemma obj_set_enumeration_order:
  "obj_set (obj_set (obj_set (obj_set [] ''b'' x) ''10'' y) ''__proto__'' w) ''9'' z
     = [(''9'', z), (''10'', y), (''b'', x)]"
  by (simp add: obj_set_def obj_define_def arrayIndex_def isDigit_def digitsValue_def)

section \<open>The two field loops and the repeater loop\<close>

lemma resolveCustomField_loop_required:
  "snd (resolveCustomField_loop fs m nv opts props req) = req @ requiredIds fs"
  by (induction fs arbitrary: props req) (simp_all add: requiredIds_def)

lemma toJsonSchema_loop_eq:
  "toJsonSchema_loop fs m opts props req = resolveCustomField_loop fs m {} opts props req"
  by (induction fs arbitrary: props req) simp_all


lemma resolveCustomField_loop_proto:
  "map_of (fst (resolveCustomField_loop fs m nv opts props req)) ''__proto__'' = map_of props ''__proto__''"
  by (induction fs arbitrary: props req) (simp_all add: map_of_obj_set)


lemma convertRepeater_loop_eq:
  "convertRepeater_loop l m vis opts acc = acc @ successes l m vis opts"
  by (induction l arbitrary: acc) (simp_all add: successes_def List.map_filter_simps split: option.splits)

section \<open>Cycle detection and repeater assembly\<close>

text \<open>
  C1. When the identifier to resolve is already on the resolution path, the resolver
  returns the untyped object schema \<^verbatim>\<open>{"type":"object"}\<close> at once: the result does
  not depend on the pool, it is a schema and not \<^verbatim>\<open>null\<close>, and it is reached with
  a budget of zero nested resolutions, so no definition is entered.
\<close>

theorem resolveCustomField_cycle:
  "createdAt' \<in> visited \<Longrightarrow>
     resolveCustomField createdAt' customFieldMap visited options = Some [(''type'', JString ''object'')]
     \<and> resolveCustomField_fuel 0 createdAt' customFieldMap visited options
         = Some (Some [(''type'', JString ''object'')])"
  by (simp add: resolveCustomField.simps resolveCustomField_fuel.simps)

theorem resolveCustomField_cycle_witness:
  "''cf-a'' \<in> {''cf-a''}
   \<and> resolveCustomField ''cf-a'' selfPool {''cf-a''} None = Some [(''type'', JString ''object'')]
   \<and> resolveCustomField_fuel 0 ''cf-a'' selfPool {''cf-a''} None
       = Some (Some [(''type'', JString ''object'')])"
  using resolveCustomField_cycle [of "''cf-a''" "{''cf-a''}" selfPool None]
  by simp

text \<open>
  C2. A repeater field resolves each listed identifier and keeps the resolutions that
  succeed, in listing order (\<open>successes\<close>). With none, the result is
  \<^verbatim>\<open>{"type":"array"}\<close> and has no \<^verbatim>\<open>items\<close>; with exactly one, \<^verbatim>\<open>items\<close> is that
  schema itself; with two or more, \<^verbatim>\<open>items\<close> is \<^verbatim>\<open>{"oneOf": [...]}\<close> over all of them,
  in that order and as many as there are successes. A repeater that lists a single
  identifier which resolves has as \<^verbatim>\<open>items\<close> what a custom field with that identifier
  converts to.
\<close>

theorem convertRepeater_cases:
  "(successes l m vis opts = [] \<longrightarrow>
      convertRepeater l m vis opts = [(''type'', JString ''array'')]
      \<and> map_of (convertRepeater l m vis opts) ''items'' = None)
   \<and> (\<forall>r. successes l m vis opts = [r] \<longrightarrow>
      convertRepeater l m vis opts = [(''type'', JString ''array''), (''items'', JObject r)])
   \<and> (2 \<le> length (successes l m vis opts) \<longrightarrow>
      convertRepeater l m vis opts =
        [(''type'', JString ''array''),
         (''items'', JObject [(''oneOf'', JArray (map JObject (successes l m vis opts)))])])
   \<and> (\<forall>r. resolveCustomField createdAt' m vis opts = Some r \<longrightarrow>
      convertRepeater [createdAt'] m vis opts
        = [(''type'', JString ''array''), (''items'', JObject (convertCustom createdAt' m vis opts))])"
proof -
  have loop: "convertRepeater_loop l m vis opts [] = successes l m vis opts"
    by (simp add: convertRepeater_loop_eq)
  have single: "convertRepeater [createdAt'] m vis opts
        = [(''type'', JString ''array''), (''items'', JObject (convertCustom createdAt' m vis opts))]"
    if "resolveCustomField createdAt' m vis opts = Some r" for r
    using that by (simp add: convertRepeater.simps convertCustom.simps)
  have none: "convertRepeater l m vis opts = [(''type'', JString ''array'')]"
    if "successes l m vis opts = []"
    using that by (simp add: convertRepeater.simps loop)
  have one: "convertRepeater l m vis opts = [(''type'', JString ''array''), (''items'', JObject r)]"
    if "successes l m vis opts = [r]" for r
    using that by (simp add: convertRepeater.simps loop)
  have many: "convertRepeater l m vis opts =
      [(''type'', JString ''array''),
       (''items'', JObject [(''oneOf'', JArray (map JObject (successes l m vis opts)))])]"
    if "2 \<le> length (successes l m vis opts)"
  proof -
    from that have "successes l m vis opts \<noteq> []" and "length (successes l m vis opts) \<noteq> 1"
      by auto
    then show ?thesis
      by (simp add: convertRepeater.simps loop Let_def)
  qed
  show ?thesis
    using none one many single by simp
qed

theorem convertRepeater_cases_witness:
  "successes [''unknown''] blocksPool {} None = []
   \<and> convertRepeater [''unknown''] blocksPool {} None = [(''type'', JString ''array'')]
   \<and> successes [''cf-1'', ''unknown''] blocksPool {} None
       = [[(''type'', JString ''object''),
           (''properties'', JObject [(''body'', JObject [(''type'', JString ''string'')])])]]
   \<and> convertRepeater [''cf-1'', ''unknown''] blocksPool {} None
       = [(''type'', JString ''array''),
          (''items'', JObject [(''type'', JString ''object''),
             (''properties'', JObject [(''body'', JObject [(''type'', JString ''string'')])])])]
   \<and> convertRepeater [''cf-1''] blocksPool {} None
       = [(''type'', JString ''array''), (''items'', JObject (convertCustom ''cf-1'' blocksPool {} None))]
   \<and> 2 \<le> length (successes [''cf-2'', ''unknown'', ''cf-1''] blocksPool {} None)
   \<and> convertRepeater [''cf-2'', ''unknown'', ''cf-1''] blocksPool {} None
       = [(''type'', JString ''array''),
          (''items'', JObject [(''oneOf'', JArray
             [JObject [(''type'', JString ''object''),
                (''properties'', JObject [(''caption'', JObject [(''type'', JString ''string'')])]),
                (''required'', JArray [JString ''caption''])],
              JObject [(''type'', JString ''object''),
                (''properties'', JObject [(''body'', JObject [(''type'', JString ''string'')])])]])])]"
proof -
  note ev = successes_def resolveCustomField.simps convertField.simps convertFieldByKind.simps
    wantsExtensions_def obj_set_def obj_define_def arrayIndex_def isDigit_def
    blocksPool_def definition'_def textField_def
  have s0: "successes [''unknown''] blocksPool {} None = []"
    by (simp add: ev)
  have s1: "successes [''cf-1'', ''unknown''] blocksPool {} None
       = [[(''type'', JString ''object''),
           (''properties'', JObject [(''body'', JObject [(''type'', JString ''string'')])])]]"
    by (simp add: ev)
  have s2: "successes [''cf-2'', ''unknown'', ''cf-1''] blocksPool {} None
       = [[(''type'', JString ''object''),
           (''properties'', JObject [(''caption'', JObject [(''type'', JString ''string'')])]),
           (''required'', JArray [JString ''caption''])],
          [(''type'', JString ''object''),
           (''properties'', JObject [(''body'', JObject [(''type'', JString ''string'')])])]]"
    by (simp add: ev)
  have r1: "resolveCustomField ''cf-1'' blocksPool {} None
       = Some [(''type'', JString ''object''),
           (''properties'', JObject [(''body'', JObject [(''type'', JString ''string'')])])]"
    by (simp add: ev)
  show ?thesis
    using convertRepeater_cases [of "[''unknown'']" blocksPool "{}" None "''cf-1''"]
      convertRepeater_cases [of "[''cf-1'', ''unknown'']" blocksPool "{}" None "''cf-1''"]
      convertRepeater_cases [of "[''cf-2'', ''unknown'', ''cf-1'']" blocksPool "{}" None "''cf-1''"]
    unfolding s0 s1 s2 r1 by simp
qed

section \<open>Nested resolutions are bounded by the pool\<close>

lemma unvisited_insert:
  assumes "map_of m c = Some d" and "c \<notin> vis"
  shows "unvisited m (insert c vis) < unvisited m vis"
proof -
  have "c \<in> fst ` set m"
    using assms(1) by (metis map_of_SomeD fst_conv image_eqI)
  then have mem: "c \<in> fst ` set m - vis"
    using assms(2) by simp
  have fin: "finite (fst ` set m - vis)"
    by simp
  have eq: "fst ` set m - insert c vis = (fst ` set m - vis) - {c}"
    by auto
  show ?thesis
    unfolding unvisited_def eq using card_Diff1_less [OF fin mem] .
qed

lemma fuel_enough:
  "unvisited m vis \<le> n \<Longrightarrow> convertField_fuel n f m vis opts = Some (convertField f m vis opts)"
  "unvisited m vis \<le> n \<Longrightarrow> convertFieldByKind_fuel n f m vis opts = Some (convertFieldByKind f m vis opts)"
  "unvisited m vis \<le> n \<Longrightarrow> convertRepeater_fuel n l m vis opts = Some (convertRepeater l m vis opts)"
  "unvisited m vis \<le> n \<Longrightarrow>
     convertRepeater_loop_fuel n l m vis opts acc = Some (convertRepeater_loop l m vis opts acc)"
  "unvisited m vis \<le> n \<Longrightarrow> convertCustom_fuel n c m vis opts = Some (convertCustom c m vis opts)"
  "unvisited m vis \<le> n \<Longrightarrow> resolveCustomField_fuel n c m vis opts = Some (resolveCustomField c m vis opts)"
  "unvisited m vis \<le> n \<Longrightarrow>
     resolveCustomField_loop_fuel n fs m vis opts props req
       = Some (resolveCustomField_loop fs m vis opts props req)"
proof (induction f m vis opts and f m vis opts and l m vis opts and l m vis opts acc
    and c m vis opts and c m vis opts and fs m vis opts props req
    arbitrary: n and n and n and n and n and n and n
    rule: convertField_convertFieldByKind_convertRepeater_convertRepeater_loop_convertCustom_resolveCustomField_resolveCustomField_loop.induct)
  case (1 field customFieldMap visited options)
  then show ?case
    by (simp add: convertField_fuel.simps convertField.simps)
next
  case (2 field customFieldMap visited options)
  then show ?case
    by (cases "kind field") (simp_all add: convertFieldByKind_fuel.simps convertFieldByKind.simps [of field])
next
  case (3 createdAtList customFieldMap visited options)
  then show ?case
    by (simp add: convertRepeater_fuel.simps convertRepeater.simps Let_def)
next
  case (4 customFieldMap visited options schemas)
  then show ?case by simp
next
  case (5 createdAt' rest customFieldMap visited options schemas)
  then show ?case
    by (cases "resolveCustomField createdAt' customFieldMap visited options") simp_all
next
  case (6 createdAt' customFieldMap visited options)
  then show ?case
    by (cases "resolveCustomField createdAt' customFieldMap visited options")
      (simp_all add: convertCustom_fuel.simps convertCustom.simps)
next
  case (7 createdAt' customFieldMap visited options)
  show ?case
  proof (cases "createdAt' \<in> visited")
    case True
    then show ?thesis
      by (simp add: resolveCustomField_fuel.simps resolveCustomField.simps)
  next
    case notin: False
    show ?thesis
    proof (cases "map_of customFieldMap createdAt'")
      case None
      with notin show ?thesis
        by (simp add: resolveCustomField_fuel.simps resolveCustomField.simps)
    next
      case (Some d)
      have less: "unvisited customFieldMap (insert createdAt' visited) < unvisited customFieldMap visited"
        using unvisited_insert [OF Some notin] .
      with "7.prems" obtain n' where n: "n = Suc n'"
        and le: "unvisited customFieldMap (insert createdAt' visited) \<le> n'"
        by (cases n) auto
      have "resolveCustomField_loop_fuel n' (defFields d) customFieldMap (insert createdAt' visited) options [] []
          = Some (resolveCustomField_loop (defFields d) customFieldMap (insert createdAt' visited) options [] [])"
        using "7.IH" [OF notin Some refl le] .
      with notin Some n show ?thesis
        by (simp add: resolveCustomField_fuel.simps resolveCustomField.simps Let_def split: prod.splits)
    qed
  qed
next
  case (8 customFieldMap nextVisited options properties required')
  then show ?case by simp
next
  case (9 field rest customFieldMap nextVisited options properties required')
  then show ?case by simp
qed

lemmas example_inputs = textField_def customField_def repeaterField_def definition'_def
  blocksPool_def selfPool_def mutualPool_def

lemmas evaluate = convertField.simps convertFieldByKind.simps convertRepeater.simps
  convertCustom.simps resolveCustomField.simps convertField_fuel.simps
  convertFieldByKind_fuel.simps convertRepeater_fuel.simps convertCustom_fuel.simps
  resolveCustomField_fuel.simps wantsExtensions_def truthyTitle_def obj_set_def
  obj_define_def obj_spread_def arrayIndex_def isDigit_def digitsValue_def

lemma selfPool_value:
  "convertField (customField ''node'' ''cf-a'') selfPool {} None
     = [(''type'', JString ''object''),
        (''properties'', JObject [(''child'', JObject [(''type'', JString ''object'')])])]"
  by (simp add: evaluate example_inputs)

lemma mutualPool_value:
  "convertField (customField ''root'' ''cf-x'') mutualPool {} None
     = [(''type'', JString ''object''),
        (''properties'', JObject
           [(''y'', JObject
              [(''type'', JString ''object''),
               (''properties'', JObject
                  [(''xs'', JObject
                     [(''type'', JString ''array''),
                      (''items'', JObject
                         [(''oneOf'', JArray
                            [JObject [(''type'', JString ''object'')],
                             JObject [(''type'', JString ''object'')]])])])])])])]"
  by (simp add: evaluate example_inputs)

lemma budget_too_small:
  "convertField_fuel 0 (customField ''node'' ''cf-a'') selfPool {} None = None"
  "convertField_fuel 1 (customField ''root'' ''cf-x'') mutualPool {} None = None"
  by (simp_all add: evaluate example_inputs)

lemma path_grows:
  assumes "createdAt' \<notin> visited" and "map_of m createdAt' = Some d"
  shows "Suc (unvisited m (insert createdAt' visited)) = unvisited m visited"
    and "visited \<subseteq> fst ` set m \<Longrightarrow>
         insert createdAt' visited \<subseteq> fst ` set m
         \<and> card (insert createdAt' visited) = Suc (card visited)
         \<and> card (insert createdAt' visited) \<le> card (fst ` set m)"
proof -
  have key: "createdAt' \<in> fst ` set m"
    using assms(2) by (metis map_of_SomeD fst_conv image_eqI)
  then have mem: "createdAt' \<in> fst ` set m - visited"
    using assms(1) by simp
  have eq: "fst ` set m - insert createdAt' visited = (fst ` set m - visited) - {createdAt'}"
    by auto
  have "card ((fst ` set m - visited) - {createdAt'}) = card (fst ` set m - visited) - 1"
    using mem by (simp add: card_Diff_singleton)
  moreover have "0 < card (fst ` set m - visited)"
    using mem by (auto simp: card_gt_0_iff)
  ultimately show "Suc (unvisited m (insert createdAt' visited)) = unvisited m visited"
    by (simp add: unvisited_def eq)
  show "insert createdAt' visited \<subseteq> fst ` set m
         \<and> card (insert createdAt' visited) = Suc (card visited)
         \<and> card (insert createdAt' visited) \<le> card (fst ` set m)"
    if sub: "visited \<subseteq> fst ` set m"
  proof -
    have fin: "finite visited"
      using sub by (rule finite_subset) simp
    have ins: "insert createdAt' visited \<subseteq> fst ` set m"
      using sub key by simp
    have "card (insert createdAt' visited) \<le> card (fst ` set m)"
      using ins by (simp add: card_mono)
    then show ?thesis
      using ins fin assms(1) by simp
  qed
qed

text \<open>
  C4. Conversion returns on every field, pool and path, cyclic pools included. Entering
  a definition puts its identifier, a pool identifier that was not on the path, on the
  path: the path grows by one, stays within the identifiers of the pool when it started
  there, and the number of pool identifiers off the path drops by one. So a budget of as
  many nested resolutions as the pool has identifiers off the path is never exhausted,
  and from the empty path the number of distinct identifiers of the pool is enough: the
  depth-limited converter then returns what the converter returns.
\<close>

theorem nested_resolutions_bounded:
  "(unvisited customFieldMap visited \<le> n \<longrightarrow>
      convertField_fuel n field customFieldMap visited options
        = Some (convertField field customFieldMap visited options))
   \<and> convertField_fuel (card (fst ` set customFieldMap)) field customFieldMap {} options
        = Some (convertField field customFieldMap {} options)
   \<and> (createdAt' \<notin> visited \<and> map_of customFieldMap createdAt' = Some d \<longrightarrow>
        Suc (unvisited customFieldMap (insert createdAt' visited)) = unvisited customFieldMap visited
        \<and> (visited \<subseteq> fst ` set customFieldMap \<longrightarrow>
              insert createdAt' visited \<subseteq> fst ` set customFieldMap
              \<and> card (insert createdAt' visited) = Suc (card visited)
              \<and> card (insert createdAt' visited) \<le> card (fst ` set customFieldMap)))"
proof -
  have "unvisited customFieldMap {} = card (fst ` set customFieldMap)"
    by (simp add: unvisited_def)
  then have top: "convertField_fuel (card (fst ` set customFieldMap)) field customFieldMap {} options
        = Some (convertField field customFieldMap {} options)"
    using fuel_enough(1) [of customFieldMap "{}" "card (fst ` set customFieldMap)" field options]
    by simp
  have bounded: "unvisited customFieldMap visited \<le> n \<longrightarrow>
      convertField_fuel n field customFieldMap visited options
        = Some (convertField field customFieldMap visited options)"
    by (simp add: fuel_enough(1))
  have grows: "createdAt' \<notin> visited \<and> map_of customFieldMap createdAt' = Some d \<longrightarrow>
        Suc (unvisited customFieldMap (insert createdAt' visited)) = unvisited customFieldMap visited
        \<and> (visited \<subseteq> fst ` set customFieldMap \<longrightarrow>
              insert createdAt' visited \<subseteq> fst ` set customFieldMap
              \<and> card (insert createdAt' visited) = Suc (card visited)
              \<and> card (insert createdAt' visited) \<le> card (fst ` set customFieldMap))"
    using path_grows [of createdAt' visited customFieldMap d] by blast
  from bounded top grows show ?thesis
    by (intro conjI)
qed

theorem nested_resolutions_bounded_witness:
  "unvisited selfPool {} \<le> 1
   \<and> convertField_fuel 1 (customField ''node'' ''cf-a'') selfPool {} None
       = Some [(''type'', JString ''object''),
               (''properties'', JObject [(''child'', JObject [(''type'', JString ''object'')])])]
   \<and> ''cf-a'' \<notin> {} \<and> map_of selfPool ''cf-a'' = Some (definition' ''cf-a'' [customField ''child'' ''cf-a''])
   \<and> {} \<subseteq> fst ` set selfPool
   \<and> Suc (unvisited selfPool (insert ''cf-a'' {})) = unvisited selfPool {}
   \<and> card (insert ''cf-a'' ({} :: string set)) \<le> card (fst ` set selfPool)
   \<and> card (fst ` set mutualPool) = 2
   \<and> convertField_fuel 2 (customField ''root'' ''cf-x'') mutualPool {} None
       = Some [(''type'', JString ''object''),
               (''properties'', JObject
                  [(''y'', JObject
                     [(''type'', JString ''object''),
                      (''properties'', JObject
                         [(''xs'', JObject
                            [(''type'', JString ''array''),
                             (''items'', JObject
                                [(''oneOf'', JArray
                                   [JObject [(''type'', JString ''object'')],
                                    JObject [(''type'', JString ''object'')]])])])])])])]"
proof -
  have u: "unvisited selfPool {} \<le> 1"
    by (simp add: unvisited_def selfPool_def)
  have c: "card (fst ` set mutualPool) = 2"
    by (simp add: mutualPool_def)
  have p: "map_of selfPool ''cf-a'' = Some (definition' ''cf-a'' [customField ''child'' ''cf-a''])"
    by (simp add: selfPool_def)
  show ?thesis
    using nested_resolutions_bounded [where customFieldMap = selfPool and visited = "{}" and n = 1
        and field = "customField ''node'' ''cf-a''" and options = None and createdAt' = "''cf-a''"
        and d = "definition' ''cf-a'' [customField ''child'' ''cf-a'']"]
      nested_resolutions_bounded [where customFieldMap = mutualPool and visited = "{}" and n = 2
        and field = "customField ''root'' ''cf-x''" and options = None and createdAt' = "''cf-a''"
        and d = "definition' ''cf-a'' [customField ''child'' ''cf-a'']"]
      u c p
    by (simp add: selfPool_value mutualPool_value)
qed

section \<open>Last occurrences and appended lists\<close>

lemma lastWith_None_iff: "lastWith key xs k = None \<longleftrightarrow> k \<notin> key ` set xs"
  by (induction xs) (auto split: option.splits)

lemma lastWith_append:
  "lastWith key (xs @ ys) k = (case lastWith key ys k of Some y \<Rightarrow> Some y | None \<Rightarrow> lastWith key xs k)"
  by (induction xs) (auto split: option.splits)

lemma lastWith_Some_D: "lastWith key xs k = Some x \<Longrightarrow> key x = k \<and> x \<in> set xs"
  by (induction xs) (auto split: option.splits if_splits)

lemma lastWith_last_occurrence:
  "key x \<notin> key ` set zs \<Longrightarrow> lastWith key (ys @ x # zs) (key x) = Some x"
  by (simp add: lastWith_append lastWith_None_iff [symmetric])

lemma successes_append:
  "successes (xs @ ys) m vis opts = successes xs m vis opts @ successes ys m vis opts"
  by (simp add: successes_def List.map_filter_def)

lemma resolveCustomField_loop_append:
  "resolveCustomField_loop (fs @ fs') m vis opts props req
     = resolveCustomField_loop fs' m vis opts
         (fst (resolveCustomField_loop fs m vis opts props req))
         (snd (resolveCustomField_loop fs m vis opts props req))"
  by (induction fs arbitrary: props req) simp_all

section \<open>Required lists\<close>

lemma plain_fixed_keys:
  "arrayIndex ''required'' = None" "arrayIndex ''title'' = None"
  by (simp_all add: arrayIndex_def isDigit_def)

lemma resolveCustomField_entered:
  assumes "createdAt' \<notin> visited" and "map_of m createdAt' = Some d"
  shows "resolveCustomField createdAt' m visited options =
     Some ([(''type'', JString ''object''),
            (''properties'', JObject (fst (resolveCustomField_loop (defFields d) m (insert createdAt' visited) options [] [])))]
           @ (if requiredIds (defFields d) = [] then []
              else [(''required'', JArray (map JString (requiredIds (defFields d))))]))"
proof -
  obtain ps rs where loop:
    "resolveCustomField_loop (defFields d) m (insert createdAt' visited) options [] [] = (ps, rs)"
    by (cases "resolveCustomField_loop (defFields d) m (insert createdAt' visited) options [] []")
  have "rs = requiredIds (defFields d)"
    using resolveCustomField_loop_required [of "defFields d" m "insert createdAt' visited" options "[]" "[]"]
    by (simp add: loop)
  then show ?thesis
    using assms by (simp add: resolveCustomField.simps loop obj_set_def obj_define_def plain_fixed_keys)
qed

lemma toJsonSchema_shape:
  "toJsonSchema schema options =
     [(''$schema'', JString ''http://json-schema.org/draft-07/schema#''),
      (''type'', JString ''object''),
      (''properties'', JObject (fst (toJsonSchema_loop (apiFields schema)
          (buildCustomFieldMap (customFields schema)) options [] [])))]
     @ (case truthyTitle options of None \<Rightarrow> [] | Some t \<Rightarrow> [(''title'', JString t)])
     @ (if requiredIds (apiFields schema) = [] then []
        else [(''required'', JArray (map JString (requiredIds (apiFields schema))))])"
proof -
  obtain ps rs where loop:
    "toJsonSchema_loop (apiFields schema) (buildCustomFieldMap (customFields schema)) options [] [] = (ps, rs)"
    by (cases "toJsonSchema_loop (apiFields schema) (buildCustomFieldMap (customFields schema)) options [] []")
  have "rs = requiredIds (apiFields schema)"
    using resolveCustomField_loop_required [of "apiFields schema" "buildCustomFieldMap (customFields schema)" "{}" options "[]" "[]"]
    by (simp add: loop toJsonSchema_loop_eq [symmetric])
  then show ?thesis
    by (cases "truthyTitle options")
      (simp_all add: toJsonSchema_def loop obj_set_def obj_define_def plain_fixed_keys)
qed

text \<open>
  C6. Wherever sibling fields are assembled into an object schema, by \<^verbatim>\<open>toJsonSchema\<close>
  or by the resolution of a reusable definition, the value of \<^verbatim>\<open>required\<close> is the list
  of the identifiers of the fields whose required flag is set, in field order, and the
  key \<^verbatim>\<open>required\<close> is absent when no field sets the flag.
\<close>

theorem required_list:
  "map_of (toJsonSchema schema options) ''required''
     = (if requiredIds (apiFields schema) = [] then None
        else Some (JArray (map JString (requiredIds (apiFields schema)))))
   \<and> (createdAt' \<notin> visited \<longrightarrow> map_of m createdAt' = Some d \<longrightarrow>
        (\<exists>r. resolveCustomField createdAt' m visited options = Some r
           \<and> map_of r ''required''
               = (if requiredIds (defFields d) = [] then None
                  else Some (JArray (map JString (requiredIds (defFields d)))))))"
proof -
  have top: "map_of (toJsonSchema schema options) ''required''
     = (if requiredIds (apiFields schema) = [] then None
        else Some (JArray (map JString (requiredIds (apiFields schema)))))"
    by (cases "truthyTitle options") (simp_all add: toJsonSchema_shape)
  have nested: "\<exists>r. resolveCustomField createdAt' m visited options = Some r
           \<and> map_of r ''required''
               = (if requiredIds (defFields d) = [] then None
                  else Some (JArray (map JString (requiredIds (defFields d)))))"
    if "createdAt' \<notin> visited" and "map_of m createdAt' = Some d"
    by (simp add: resolveCustomField_entered [OF that])
  show ?thesis
    using top nested by simp
qed

theorem required_list_witness:
  "map_of (toJsonSchema
       \<lparr>apiFields = [textField ''title'' (Some True), textField ''body'' None,
                     textField ''slug'' (Some True), textField ''draft'' (Some False)],
        customFields = None\<rparr> None) ''required''
     = Some (JArray [JString ''title'', JString ''slug''])
   \<and> map_of (toJsonSchema \<lparr>apiFields = [textField ''body'' None], customFields = None\<rparr> None) ''required''
     = None
   \<and> ''cf-2'' \<notin> {} \<and> map_of blocksPool ''cf-2'' = Some (definition' ''cf-2'' [textField ''caption'' (Some True)])
   \<and> (\<exists>r. resolveCustomField ''cf-2'' blocksPool {} None = Some r
         \<and> map_of r ''required'' = Some (JArray [JString ''caption'']))"
proof -
  have p: "map_of blocksPool ''cf-2'' = Some (definition' ''cf-2'' [textField ''caption'' (Some True)])"
    by (simp add: blocksPool_def)
  show ?thesis
    using required_list [where schema = "\<lparr>apiFields = [textField ''title'' (Some True), textField ''body'' None,
                     textField ''slug'' (Some True), textField ''draft'' (Some False)],
        customFields = None\<rparr>" and options = None and createdAt' = "''cf-2''" and visited = "{}"
        and m = blocksPool and d = "definition' ''cf-2'' [textField ''caption'' (Some True)]"]
      required_list [where schema = "\<lparr>apiFields = [textField ''body'' None], customFields = None\<rparr>"
        and options = None and createdAt' = "''cf-2''" and visited = "{}"
        and m = blocksPool and d = "definition' ''cf-2'' [textField ''caption'' (Some True)]"]
      p
    by (simp add: requiredIds_def textField_def definition'_def)
qed

section \<open>Unresolvable references and the pool\<close>

text \<open>
  C7. A custom field whose identifier is not in the pool converts to the untyped object
  schema \<^verbatim>\<open>{"type":"object"}\<close> (to which \<^verbatim>\<open>convertField\<close> adds the three extension
  keys when extensions are asked for). No input makes the conversion fail: every field,
  with every pool, path and options, has a converted schema.
\<close>

theorem custom_absent_from_pool:
  "(map_of m createdAt' = None \<longrightarrow>
      convertCustom createdAt' m visited options = [(''type'', JString ''object'')]
      \<and> (kind field = Custom createdAt' \<longrightarrow>
            convertFieldByKind field m visited options = [(''type'', JString ''object'')]
            \<and> convertField field m visited options
                = (if wantsExtensions options
                   then [(''type'', JString ''object''),
                         (''x-microcms-field-id'', JString (fieldId field)),
                         (''x-microcms-field-name'', JString (name field)),
                         (''x-microcms-kind'', JString ''custom'')]
                   else [(''type'', JString ''object'')])))
   \<and> (\<exists>s. convertField_fuel (unvisited m visited) field m visited options = Some s)"
proof -
  have custom: "convertCustom createdAt' m visited options = [(''type'', JString ''object'')]"
    if "map_of m createdAt' = None"
    using that by (simp add: convertCustom.simps resolveCustomField.simps)
  have plain: "arrayIndex ''type'' = None" "arrayIndex ''x-microcms-field-id'' = None"
    "arrayIndex ''x-microcms-field-name'' = None" "arrayIndex ''x-microcms-kind'' = None"
    by (simp_all add: arrayIndex_def isDigit_def)
  have byKind: "convertFieldByKind field m visited options = [(''type'', JString ''object'')]"
    if "map_of m createdAt' = None" and "kind field = Custom createdAt'"
    using that by (simp add: convertFieldByKind.simps custom)
  have whole: "convertField field m visited options
                = (if wantsExtensions options
                   then [(''type'', JString ''object''),
                         (''x-microcms-field-id'', JString (fieldId field)),
                         (''x-microcms-field-name'', JString (name field)),
                         (''x-microcms-kind'', JString ''custom'')]
                   else [(''type'', JString ''object'')])"
    if "map_of m createdAt' = None" and "kind field = Custom createdAt'"
    using that by (simp add: convertField.simps byKind obj_spread_def obj_define_def plain)
  have total: "\<exists>s. convertField_fuel (unvisited m visited) field m visited options = Some s"
    by (simp add: fuel_enough(1))
  show ?thesis
    using custom byKind whole total by simp
qed

theorem custom_absent_from_pool_witness:
  "map_of blocksPool ''unknown'' = None
   \<and> kind (customField ''meta'' ''unknown'') = Custom ''unknown''
   \<and> convertCustom ''unknown'' blocksPool {} None = [(''type'', JString ''object'')]
   \<and> convertField (customField ''meta'' ''unknown'') blocksPool {} None = [(''type'', JString ''object'')]"
proof -
  have a: "map_of blocksPool ''unknown'' = None"
    by (simp add: blocksPool_def)
  have k: "kind (customField ''meta'' ''unknown'') = Custom ''unknown''"
    by (simp add: customField_def)
  have w: "\<not> wantsExtensions None"
    by (simp add: wantsExtensions_def)
  show ?thesis
    using custom_absent_from_pool [where m = blocksPool and createdAt' = "''unknown''"
        and visited = "{}" and options = None and field = "customField ''meta'' ''unknown''"] a k w
    by simp
qed

lemma buildCustomFieldMap_fold:
  "map_of (foldl (\<lambda>m def. AList.update (createdAt def) def m) acc defs) k
     = (case lastWith createdAt defs k of Some d \<Rightarrow> Some d | None \<Rightarrow> map_of acc k)"
proof (induction defs arbitrary: acc)
  case Nil
  then show ?case by simp
next
  case (Cons d defs)
  show ?case
    by (simp add: Cons.IH update_conv' split: option.splits)
qed

lemma buildCustomFieldMap_fold_distinct:
  "distinct (map fst acc) \<Longrightarrow>
   distinct (map fst (foldl (\<lambda>m def. AList.update (createdAt def) def m) acc defs))"
  by (induction defs arbitrary: acc) (simp_all add: distinct_update)

text \<open>
  C8. The pool built from the list of reusable definitions holds each identifier once,
  with the last definition of the list that bears it: a later definition replaces an
  earlier one with the same identifier, and resolving the identifier converts the
  fields of the later one.
\<close>

theorem pool_last_definition_wins:
  "distinct (map fst (buildCustomFieldMap cfs))
   \<and> map_of (buildCustomFieldMap (Some defs)) k = lastWith createdAt defs k
   \<and> (createdAt later \<notin> createdAt ` set after \<longrightarrow>
        map_of (buildCustomFieldMap (Some (before @ later # after))) (createdAt later) = Some later
        \<and> (createdAt later \<notin> visited \<longrightarrow>
             resolveCustomField (createdAt later) (buildCustomFieldMap (Some (before @ later # after)))
                 visited options
               = Some ([(''type'', JString ''object''),
                        (''properties'', JObject (fst (resolveCustomField_loop (defFields later)
                            (buildCustomFieldMap (Some (before @ later # after)))
                            (insert (createdAt later) visited) options [] [])))]
                       @ (if requiredIds (defFields later) = [] then []
                          else [(''required'', JArray (map JString (requiredIds (defFields later))))]))))"
proof -
  have d: "distinct (map fst (buildCustomFieldMap cfs))"
    by (cases cfs) (simp_all add: buildCustomFieldMap_def buildCustomFieldMap_fold_distinct)
  have l: "map_of (buildCustomFieldMap (Some ds)) k' = lastWith createdAt ds k'" for ds k'
    by (simp add: buildCustomFieldMap_def buildCustomFieldMap_fold split: option.splits)
  have w: "map_of (buildCustomFieldMap (Some (before @ later # after))) (createdAt later) = Some later"
    if "createdAt later \<notin> createdAt ` set after"
    using that by (simp add: l lastWith_last_occurrence)
  show ?thesis
    using d l w resolveCustomField_entered [OF _ w] by simp
qed

lemma example_fields [simp]:
  "fieldId (textField i r) = i" "name (textField i r) = i" "required (textField i r) = r"
  "kind (textField i r) = Text None"
  "fieldId (customField i c) = i" "name (customField i c) = i" "required (customField i c) = None"
  "kind (customField i c) = Custom c"
  "fieldId (repeaterField i cs) = i" "name (repeaterField i cs) = i"
  "required (repeaterField i cs) = None" "kind (repeaterField i cs) = Repeater cs"
  "createdAt (definition' c fs) = c" "defFields (definition' c fs) = fs"
  by (simp_all add: textField_def customField_def repeaterField_def definition'_def)

lemma textField_value [simp]:
  "convertField (textField i r) m vis None = [(''type'', JString ''string'')]"
  by (simp add: convertField.simps convertFieldByKind.simps wantsExtensions_def)

theorem pool_last_definition_wins_witness:
  "createdAt (definition' ''cf-1'' [textField ''new'' None]) \<notin> createdAt ` set [definition' ''cf-2'' []]
   \<and> createdAt (definition' ''cf-1'' [textField ''new'' None]) \<notin> {}
   \<and> map_of (buildCustomFieldMap (Some ([definition' ''cf-1'' [textField ''old'' None]]
          @ definition' ''cf-1'' [textField ''new'' None] # [definition' ''cf-2'' []]))) ''cf-1''
       = Some (definition' ''cf-1'' [textField ''new'' None])
   \<and> resolveCustomField ''cf-1'' (buildCustomFieldMap (Some ([definition' ''cf-1'' [textField ''old'' None]]
          @ definition' ''cf-1'' [textField ''new'' None] # [definition' ''cf-2'' []]))) {} None
       = Some [(''type'', JString ''object''),
               (''properties'', JObject [(''new'', JObject [(''type'', JString ''string'')])])]"
proof -
  define later where "later = definition' ''cf-1'' [textField ''new'' None]"
  define pool where "pool = buildCustomFieldMap (Some ([definition' ''cf-1'' [textField ''old'' None]]
          @ later # [definition' ''cf-2'' []]))"
  have n: "createdAt later \<notin> createdAt ` set [definition' ''cf-2'' []]"
    and v: "createdAt later \<notin> {}"
    by (simp_all add: later_def)
  have loop: "resolveCustomField_loop (defFields later) pool (insert (createdAt later) {}) None [] []
      = ([(''new'', JObject [(''type'', JString ''string'')])], [])"
    by (simp add: later_def obj_set_def obj_define_def arrayIndex_def isDigit_def)
  have r: "requiredIds (defFields later) = []"
    by (simp add: later_def requiredIds_def)
  have "map_of pool (createdAt later) = Some later
      \<and> resolveCustomField (createdAt later) pool {} None
          = Some [(''type'', JString ''object''),
               (''properties'', JObject [(''new'', JObject [(''type'', JString ''string'')])])]"
    using pool_last_definition_wins [where later = later
        and before = "[definition' ''cf-1'' [textField ''old'' None]]"
        and after = "[definition' ''cf-2'' []]" and visited = "{}" and options = None] n v
    unfolding pool_def [symmetric] loop r by simp
  then show ?thesis
    using n v unfolding pool_def later_def by simp
qed

section \<open>The title option\<close>

text \<open>
  C9, as the code has it. \<^verbatim>\<open>toJsonSchema\<close> tests \<^verbatim>\<open>options?.title\<close> for truthiness, so
  the envelope's \<^verbatim>\<open>title\<close> is the supplied title when that is a non-empty string, and
  the envelope has no \<^verbatim>\<open>title\<close> when there are no options, no title, or the empty
  string as title.
\<close>

theorem title_option:
  "map_of (toJsonSchema schema options) ''title''
     = (case options of
          None \<Rightarrow> None
        | Some opts \<Rightarrow>
            (case title opts of
               None \<Rightarrow> None
             | Some t \<Rightarrow> if t = [] then None else Some (JString t)))"
  by (simp add: toJsonSchema_shape truthyTitle_def split: option.splits)

theorem title_option_witness:
  "map_of (toJsonSchema \<lparr>apiFields = [], customFields = None\<rparr>
      (Some \<lparr>title = Some ''MyAPI'', includeExtensions = None\<rparr>)) ''title'' = Some (JString ''MyAPI'')
   \<and> map_of (toJsonSchema \<lparr>apiFields = [], customFields = None\<rparr>
      (Some \<lparr>title = None, includeExtensions = Some True\<rparr>)) ''title'' = None
   \<and> map_of (toJsonSchema \<lparr>apiFields = [], customFields = None\<rparr> None) ''title'' = None"
  using title_option [of "\<lparr>apiFields = [], customFields = None\<rparr>"
      "Some \<lparr>title = Some ''MyAPI'', includeExtensions = None\<rparr>"]
    title_option [of "\<lparr>apiFields = [], customFields = None\<rparr>"
      "Some \<lparr>title = None, includeExtensions = Some True\<rparr>"]
    title_option [of "\<lparr>apiFields = [], customFields = None\<rparr>" None]
  by simp

text \<open>
  C9 as stated fails for the empty title: the option is present, and the envelope has no
  \<^verbatim>\<open>title\<close>.
\<close>

theorem title_option_counterexample:
  "title \<lparr>title = Some '''', includeExtensions = None\<rparr> = Some ''''
   \<and> toJsonSchema \<lparr>apiFields = [], customFields = None\<rparr>
        (Some \<lparr>title = Some '''', includeExtensions = None\<rparr>)
       = [(''$schema'', JString ''http://json-schema.org/draft-07/schema#''),
          (''type'', JString ''object''),
          (''properties'', JObject [])]
   \<and> map_of (toJsonSchema \<lparr>apiFields = [], customFields = None\<rparr>
        (Some \<lparr>title = Some '''', includeExtensions = None\<rparr>)) ''title'' \<noteq> Some (JString '''')"
  by (simp add: toJsonSchema_def truthyTitle_def buildCustomFieldMap_def)

section \<open>Bundles\<close>

lemma bundleToJsonSchema_loop_entries:
  "k \<noteq> ''__proto__'' \<Longrightarrow>
   map_of (bundleToJsonSchema_loop es acc) k =
     (case lastWith endpoint es k of
        Some e \<Rightarrow> Some (toJsonSchema (api e) (Some \<lparr>title = Some k, includeExtensions = None\<rparr>))
      | None \<Rightarrow> map_of acc k)"
proof (induction es arbitrary: acc)
  case Nil
  then show ?case by simp
next
  case (Cons e es)
  show ?case
    using Cons.prems by (auto simp: Cons.IH map_of_obj_set split: option.splits)
qed

lemma bundleToJsonSchema_loop_keys:
  "fst ` set (bundleToJsonSchema_loop es acc) = fst ` set acc \<union> (endpoint ` set es - {''__proto__''})"
proof (induction es arbitrary: acc)
  case Nil
  then show ?case by simp
next
  case (Cons e es)
  show ?case
    by (auto simp: Cons.IH obj_set_def keys_obj_define)
qed

lemma bundleToJsonSchema_loop_distinct:
  "distinct (map fst acc) \<Longrightarrow> distinct (map fst (bundleToJsonSchema_loop es acc))"
  by (induction es arbitrary: acc) (simp_all add: distinct_obj_set)

text \<open>
  What \<^verbatim>\<open>bundleToJsonSchema\<close> does for every endpoint name but \<^verbatim>\<open>__proto__\<close>: the record
  has each such name of the bundle once, with the schema of the last entry that bears it,
  converted with the name as title.
\<close>

lemma bundle_last_entry_wins:
  "distinct (map fst (bundleToJsonSchema bundle))"
  "fst ` set (bundleToJsonSchema bundle) = endpoint ` set (apis bundle) - {''__proto__''}"
  "k \<noteq> ''__proto__'' \<Longrightarrow>
     map_of (bundleToJsonSchema bundle) k
       = map_option (\<lambda>e. toJsonSchema (api e) (Some \<lparr>title = Some k, includeExtensions = None\<rparr>))
           (lastWith endpoint (apis bundle) k)"
  by (simp_all add: bundleToJsonSchema_def bundleToJsonSchema_loop_distinct
      bundleToJsonSchema_loop_keys bundleToJsonSchema_loop_entries split: option.splits)

text \<open>
  C10 at a bundle whose two entries both have the endpoint \<^verbatim>\<open>__proto__\<close>. The two
  assignments \<^verbatim>\<open>result["__proto__"] = ...\<close> replace the prototype of \<^verbatim>\<open>result\<close>; the
  record that is returned has no own key, where it should have the key \<^verbatim>\<open>__proto__\<close>
  with the schema of the second entry.
\<close>

theorem bundle_proto_endpoint:
  "map endpoint (apis protoBundle) = [''__proto__'', ''__proto__'']
   \<and> bundleToJsonSchema protoBundle = []
   \<and> map_of (bundleToJsonSchema protoBundle) ''__proto__'' = None"
  by (simp add: bundleToJsonSchema_def protoBundle_def obj_set_def)

section \<open>Resolution of a reusable definition\<close>






section \<open>Independence of sibling resolutions\<close>

lemma resolved_starts_with_type:
  assumes "resolveCustomField c m vis opts = Some r"
  shows "\<exists>rest. r = (''type'', JString ''object'') # rest"
proof (cases "c \<in> vis")
  case True
  with assms have "r = [(''type'', JString ''object'')]"
    by (simp add: resolveCustomField.simps)
  then show ?thesis
    by blast
next
  case notin: False
  show ?thesis
  proof (cases "map_of m c")
    case None
    with notin assms show ?thesis
      by (simp add: resolveCustomField.simps)
  next
    case (Some d)
    from assms show ?thesis
      unfolding resolveCustomField_entered [OF notin Some] by auto
  qed
qed

lemma oneOfAlternatives_resolved:
  "resolveCustomField c m vis opts = Some r \<Longrightarrow> oneOfAlternatives r = None"
  by (auto simp: oneOfAlternatives_def dest!: resolved_starts_with_type split: list.splits json.splits)

lemma successes_resolved:
  "r \<in> set (successes l m vis opts) \<Longrightarrow> \<exists>c. resolveCustomField c m vis opts = Some r"
  by (auto simp: successes_def List.map_filter_def)

lemma read_back_alternatives:
  "concat (map (\<lambda>x. case x of JObject s \<Rightarrow> [s] | _ \<Rightarrow> []) (map JObject ss)) = ss"
  by (induction ss) simp_all

lemma itemSchemas_convertRepeater:
  "itemSchemas (convertRepeater l m vis opts) = successes l m vis opts"
proof -
  have loop: "convertRepeater_loop l m vis opts [] = successes l m vis opts"
    by (simp add: convertRepeater_loop_eq)
  consider (none) "successes l m vis opts = []"
    | (one) r where "successes l m vis opts = [r]"
    | (many) r r' rs where "successes l m vis opts = r # r' # rs"
    by (cases "successes l m vis opts" rule: list.exhaust; cases "tl (successes l m vis opts)") auto
  then show ?thesis
  proof cases
    case none
    then show ?thesis
      by (simp add: convertRepeater.simps loop itemSchemas_def)
  next
    case one
    then have "r \<in> set (successes l m vis opts)"
      by simp
    then obtain c where "resolveCustomField c m vis opts = Some r"
      using successes_resolved by blast
    then have "oneOfAlternatives r = None"
      by (rule oneOfAlternatives_resolved)
    with one show ?thesis
      by (simp add: convertRepeater.simps loop itemSchemas_def)
  next
    case many
    then show ?thesis
      by (simp add: convertRepeater.simps loop itemSchemas_def oneOfAlternatives_def
          read_back_alternatives del: map_map)
  qed
qed

lemma successes_concat:
  "successes l m vis opts
     = concat (map (\<lambda>c. case resolveCustomField c m vis opts of None \<Rightarrow> [] | Some r \<Rightarrow> [r]) l)"
  by (induction l) (simp_all add: successes_def split: option.splits)

lemma resolveCustomField_loop_foldl:
  "fst (resolveCustomField_loop fs m nv opts props req)
     = foldl (\<lambda>obj f. obj_set obj (fieldId f) (JObject (convertField f m nv opts))) props fs"
  by (induction fs arbitrary: props req) simp_all

lemma items_with_extensions:
  "map_of (obj_spread (convertRepeater l m vis opts)
       [(''x-microcms-field-id'', a), (''x-microcms-field-name'', b), (''x-microcms-kind'', c)]) ''items''
     = map_of (convertRepeater l m vis opts) ''items''"
proof -
  have plain: "arrayIndex ''type'' = None" "arrayIndex ''items'' = None"
    "arrayIndex ''x-microcms-field-id'' = None" "arrayIndex ''x-microcms-field-name'' = None"
    "arrayIndex ''x-microcms-kind'' = None"
    by (simp_all add: arrayIndex_def isDigit_def)
  show ?thesis
    by (simp add: convertRepeater.simps Let_def obj_spread_def obj_define_def plain)
qed

text \<open>
  C5. The path is a value and each branch works on its own copy. The item schemas of a
  repeater field are the resolutions of its listed identifiers, each resolved alone with
  the path the field was converted with, those that fail left out, in listing order: the
  items of a list are the items of its one-identifier repeaters put together, and a
  one-identifier repeater has as item the resolution of that identifier. In the
  resolution of a definition, each field is assigned its own conversion with the path
  extended by the definition's identifier, whatever the fields beside it are.
\<close>

theorem resolutions_independent:
  "(kind field = Repeater l \<longrightarrow>
      itemSchemas (convertField field m vis opts)
        = concat (map (\<lambda>c. case resolveCustomField c m vis opts of None \<Rightarrow> [] | Some r \<Rightarrow> [r]) l))
   \<and> itemSchemas (convertRepeater l m vis opts)
        = concat (map (\<lambda>c. itemSchemas (convertRepeater [c] m vis opts)) l)
   \<and> itemSchemas (convertRepeater [createdAt'] m vis opts)
        = (case resolveCustomField createdAt' m vis opts of None \<Rightarrow> [] | Some r \<Rightarrow> [r])
   \<and> (createdAt' \<notin> vis \<and> map_of m createdAt' = Some d \<longrightarrow>
        (\<exists>r. resolveCustomField createdAt' m vis opts = Some r
           \<and> map_of r ''properties''
               = Some (JObject (foldl (\<lambda>obj f. obj_set obj (fieldId f)
                                         (JObject (convertField f m (insert createdAt' vis) opts)))
                                  [] (defFields d)))))"
proof -
  have single: "itemSchemas (convertRepeater [c] m vis opts)
        = (case resolveCustomField c m vis opts of None \<Rightarrow> [] | Some r \<Rightarrow> [r])" for c
    by (simp add: itemSchemas_convertRepeater successes_concat)
  have whole: "itemSchemas (convertRepeater l m vis opts)
        = concat (map (\<lambda>c. itemSchemas (convertRepeater [c] m vis opts)) l)"
    by (simp add: single) (simp add: itemSchemas_convertRepeater successes_concat)
  have field: "itemSchemas (convertField field m vis opts)
        = concat (map (\<lambda>c. case resolveCustomField c m vis opts of None \<Rightarrow> [] | Some r \<Rightarrow> [r]) l)"
    if "kind field = Repeater l"
  proof -
    have "map_of (convertField field m vis opts) ''items'' = map_of (convertRepeater l m vis opts) ''items''"
      using that by (simp add: convertField.simps convertFieldByKind.simps Let_def items_with_extensions)
    then have "itemSchemas (convertField field m vis opts) = itemSchemas (convertRepeater l m vis opts)"
      by (simp add: itemSchemas_def)
    then show ?thesis
      by (simp add: itemSchemas_convertRepeater successes_concat)
  qed
  have siblings: "\<exists>r. resolveCustomField createdAt' m vis opts = Some r
           \<and> map_of r ''properties''
               = Some (JObject (foldl (\<lambda>obj f. obj_set obj (fieldId f)
                                         (JObject (convertField f m (insert createdAt' vis) opts)))
                                  [] (defFields d)))"
    if "createdAt' \<notin> vis" and "map_of m createdAt' = Some d"
    by (simp add: resolveCustomField_entered [OF that] resolveCustomField_loop_foldl)
  have field': "kind field = Repeater l \<longrightarrow>
      itemSchemas (convertField field m vis opts)
        = concat (map (\<lambda>c. case resolveCustomField c m vis opts of None \<Rightarrow> [] | Some r \<Rightarrow> [r]) l)"
    by (rule impI) (rule field)
  have siblings': "createdAt' \<notin> vis \<and> map_of m createdAt' = Some d \<longrightarrow>
        (\<exists>r. resolveCustomField createdAt' m vis opts = Some r
           \<and> map_of r ''properties''
               = Some (JObject (foldl (\<lambda>obj f. obj_set obj (fieldId f)
                                         (JObject (convertField f m (insert createdAt' vis) opts)))
                                  [] (defFields d))))"
  proof
    assume "createdAt' \<notin> vis \<and> map_of m createdAt' = Some d"
    then show "\<exists>r. resolveCustomField createdAt' m vis opts = Some r
           \<and> map_of r ''properties''
               = Some (JObject (foldl (\<lambda>obj f. obj_set obj (fieldId f)
                                         (JObject (convertField f m (insert createdAt' vis) opts)))
                                  [] (defFields d)))"
      using siblings by (elim conjE)
  qed
  from field' whole single [of createdAt'] siblings' show ?thesis
    by (intro conjI)
qed

theorem resolutions_independent_witness:
  "kind (repeaterField ''blocks'' [''cf-1'', ''unknown'', ''cf-1'']) = Repeater [''cf-1'', ''unknown'', ''cf-1'']
   \<and> itemSchemas (convertField (repeaterField ''blocks'' [''cf-1'', ''unknown'', ''cf-1'']) blocksPool {} None)
       = [[(''type'', JString ''object''),
           (''properties'', JObject [(''body'', JObject [(''type'', JString ''string'')])])],
          [(''type'', JString ''object''),
           (''properties'', JObject [(''body'', JObject [(''type'', JString ''string'')])])]]
   \<and> itemSchemas (convertRepeater [''cf-1''] blocksPool {} None)
       = [[(''type'', JString ''object''),
           (''properties'', JObject [(''body'', JObject [(''type'', JString ''string'')])])]]
   \<and> ''cf-y'' \<notin> {}
   \<and> map_of mutualPool ''cf-y'' = Some (definition' ''cf-y'' [repeaterField ''xs'' [''cf-x'', ''cf-y'']])
   \<and> (\<exists>r. resolveCustomField ''cf-y'' mutualPool {} None = Some r
         \<and> map_of r ''properties''
             = Some (JObject
                 [(''xs'', JObject
                    [(''type'', JString ''array''),
                     (''items'', JObject
                        [(''oneOf'', JArray
                           [JObject [(''type'', JString ''object''),
                              (''properties'', JObject [(''y'', JObject [(''type'', JString ''object'')])])],
                            JObject [(''type'', JString ''object'')]])])])]))"
proof -
  have k: "kind (repeaterField ''blocks'' [''cf-1'', ''unknown'', ''cf-1'']) = Repeater [''cf-1'', ''unknown'', ''cf-1'']"
    by simp
  have r1: "resolveCustomField ''cf-1'' blocksPool {} None
      = Some [(''type'', JString ''object''),
           (''properties'', JObject [(''body'', JObject [(''type'', JString ''string'')])])]"
    and r0: "resolveCustomField ''unknown'' blocksPool {} None = None"
    by (simp_all add: evaluate example_inputs)
  have p: "map_of mutualPool ''cf-y'' = Some (definition' ''cf-y'' [repeaterField ''xs'' [''cf-x'', ''cf-y'']])"
    by (simp add: mutualPool_def)
  have xs: "convertField (repeaterField ''xs'' [''cf-x'', ''cf-y'']) mutualPool (insert ''cf-y'' {}) None
      = [(''type'', JString ''array''),
         (''items'', JObject
            [(''oneOf'', JArray
               [JObject [(''type'', JString ''object''),
                  (''properties'', JObject [(''y'', JObject [(''type'', JString ''object'')])])],
                JObject [(''type'', JString ''object'')]])])]"
    by (simp add: evaluate example_inputs)
  have a: "arrayIndex ''xs'' = None"
    by (simp add: arrayIndex_def isDigit_def)
  show ?thesis
    using resolutions_independent [where field = "repeaterField ''blocks'' [''cf-1'', ''unknown'', ''cf-1'']"
        and l = "[''cf-1'', ''unknown'', ''cf-1'']" and m = blocksPool and vis = "{}" and opts = None
        and createdAt' = "''cf-1''"]
      resolutions_independent [where field = "repeaterField ''xs'' [''cf-x'', ''cf-y'']"
        and l = "[''cf-x'', ''cf-y'']" and m = mutualPool and vis = "{}" and opts = None
        and createdAt' = "''cf-y''" and d = "definition' ''cf-y'' [repeaterField ''xs'' [''cf-x'', ''cf-y'']]"]
      k p
    by (simp add: r1 r0 xs a obj_set_def obj_define_def)
qed

end
